theory Spec2Isabelle
  imports Main
begin

section \<open>JavaScript string primitives used by the action\<close>

text \<open>
  A JavaScript string is modelled as a \<open>string\<close>, one \<open>char\<close> per code unit
  (code units above U+00FF are outside the model).  \<open>split_on c\<close> is
  \<open>s.split(c)\<close> for a one-character separator: it never returns the empty array,
  the empty string splits into one empty piece.
\<close>

fun split_on :: "char \<Rightarrow> string \<Rightarrow> string list" where
  "split_on c [] = [[]]"
| "split_on c (x # xs) =
     (if x = c then [] # split_on c xs
      else (let r = split_on c xs in (x # hd r) # tl r))"

text \<open>\<open>join_with sep\<close> is \<open>Array.prototype.join(sep)\<close>.\<close>

fun join_with :: "string \<Rightarrow> string list \<Rightarrow> string" where
  "join_with sep [] = []"
| "join_with sep [x] = x"
| "join_with sep (x # y # ys) = x @ sep @ join_with sep (y # ys)"

text \<open>
  The white space removed by \<open>String.prototype.trim\<close>, as far as it lies in the
  modelled range: TAB, LF, VT, FF, CR, SPACE and NBSP.
\<close>

definition is_space :: "char \<Rightarrow> bool" where
  "is_space c = (c \<in> set [CHR 0x09, CHR 0x0A, CHR 0x0B, CHR 0x0C, CHR 0x0D, CHR 0x20, CHR 0xA0])"

definition trim :: "string \<Rightarrow> string" where
  "trim s = rev (dropWhile is_space (rev (dropWhile is_space s)))"

definition startsWith :: "string \<Rightarrow> string \<Rightarrow> bool" where
  "startsWith s p = (take (length p) s = p)"

definition endsWith :: "string \<Rightarrow> string \<Rightarrow> bool" where
  "endsWith s p = (length p \<le> length s \<and> drop (length s - length p) s = p)"

text \<open>Decimal rendering of a number inside a template literal.\<close>

definition digit_char :: "nat \<Rightarrow> char" where
  "digit_char d = ''0123456789'' ! d"

fun show_nat :: "nat \<Rightarrow> string" where
  "show_nat n = (if n < 10 then [digit_char n] else show_nat (n div 10) @ [digit_char (n mod 10)])"

declare show_nat.simps [simp del]

definition show_int :: "int \<Rightarrow> string" where
  "show_int i = (if i < 0 then CHR ''-'' # show_nat (nat (- i)) else show_nat (nat i))"

text \<open>
  \<open>xs.slice(0, m)\<close> for an integer \<open>m\<close>: a negative end counts from the end of
  the array.
\<close>

definition slice0 :: "'a list \<Rightarrow> int \<Rightarrow> 'a list" where
  "slice0 xs m = (if m < 0 then take (nat (int (length xs) + m)) xs else take (nat m) xs)"

section \<open>Data model\<close>

datatype change_type = added | modified | deleted | renamed

record ChangedFile =
  path :: string
  changeType :: change_type
  previousPath :: "string option"

record DiffOptions =
  contextLines :: int
  maxLines :: int

record FileDiff =
  file' :: ChangedFile
  diff :: string
  truncated :: bool
  lineCount :: int

section \<open>diff-generator.ts: truncation\<close>

definition truncation_note :: "int \<Rightarrow> string" where
  "truncation_note n = ''... (diff truncated, '' @ show_int n @ '' more lines)''"

definition processDiffOutput :: "ChangedFile \<Rightarrow> string \<Rightarrow> int \<Rightarrow> FileDiff" where
  "processDiffOutput f rawDiff maxL =
     (let lines = split_on CHR 0x0A rawDiff;
          lineCnt = int (length lines)
      in if lineCnt > maxL
         then \<lparr> file' = f,
                diff = join_with [CHR 0x0A] (slice0 lines maxL @ [[], truncation_note (lineCnt - maxL)]),
                truncated = True,
                lineCount = lineCnt \<rparr>
         else \<lparr> file' = f, diff = rawDiff, truncated = False, lineCount = lineCnt \<rparr>)"

section \<open>The process environment and external commands\<close>

text \<open>
  \<open>process.env\<close> is a partial map from variable names to strings.  A variable
  is truthy when it is set and not empty; inside a template literal an unset variable
  prints as \<open>undefined\<close>; \<open>a || b\<close> takes \<open>a\<close> when truthy and \<open>b\<close> otherwise.
\<close>

type_synonym env = "string \<rightharpoonup> string"

definition truthy :: "string option \<Rightarrow> bool" where
  "truthy v = (case v of None \<Rightarrow> False | Some s \<Rightarrow> s \<noteq> [])"

definition interp :: "string option \<Rightarrow> string" where
  "interp v = (case v of None \<Rightarrow> ''undefined'' | Some s \<Rightarrow> s)"

definition js_or :: "string option \<Rightarrow> string \<Rightarrow> string" where
  "js_or v d = (case v of None \<Rightarrow> d | Some s \<Rightarrow> if s = [] then d else s)"

text \<open>
  \<open>execAsync\<close> runs a shell command in the outside world: from a world \<open>w\<close> it
  either rejects with an error (\<open>Inl\<close>, the error's text) or resolves with the
  command's standard output (\<open>Inr\<close>), and leaves a new world.  The world is a type
  parameter: nothing is assumed about git.  Calls to \<open>core.debug\<close> in
  file-detector.ts and diff-generator.ts, and the \<open>core.warning\<close> of
  \<open>generateDiffForFile\<close>, only write to the action log and are left out of these
  two modules' models.
\<close>

type_synonym 'w exec = "'w \<Rightarrow> string \<Rightarrow> (string + string) \<times> 'w"

section \<open>file-detector.ts\<close>

record FileDetectorOptions =
  patterns :: "string list"
  excludePatterns :: "string list"
  caseSensitive :: bool
  createOnNewFiles :: bool
  createOnDeletedFiles :: bool

text \<open>
  The body of the \<open>for\<close> loop of \<open>parseGitDiffNameStatus\<close>: the entries pushed
  onto \<open>files\<close> for one line (none after a \<open>continue\<close>).  \<open>parts[1]\<close> and
  \<open>parts[2]\<close> are \<open>undefined\<close> when the line has too few fields, and an empty
  field is falsy as well.
\<close>

definition parseLine :: "string \<Rightarrow> ChangedFile list" where
  "parseLine line =
     (case split_on CHR 0x09 line of
        [] \<Rightarrow> []
      | status # cols \<Rightarrow>
          (case cols of
             [] \<Rightarrow> []
           | p # others \<Rightarrow>
               if p = [] then []
               else if startsWith status ''R'' then
                 (case others of
                    [] \<Rightarrow> []
                  | newPath # _ \<Rightarrow>
                      if newPath = [] then []
                      else [\<lparr> path = newPath, changeType = renamed, previousPath = Some p \<rparr>])
               else
                 [\<lparr> path = p,
                    changeType =
                      (if status = ''A'' then added
                       else if status = ''D'' then deleted
                       else if status = ''M'' \<or> startsWith status ''M'' then modified
                       else modified),
                    previousPath = None \<rparr>]))"

definition nonempty_lines :: "string \<Rightarrow> string list" where
  "nonempty_lines output = filter (\<lambda>line. line \<noteq> []) (split_on CHR 0x0A (trim output))"

definition parseGitDiffNameStatus :: "string \<Rightarrow> ChangedFile list" where
  "parseGitDiffNameStatus output = concat (map parseLine (nonempty_lines output))"

text \<open>
  The first half of \<open>getChangedFilesFromGit\<close>: choose the comparison command; on
  a pull request fetch the base ref first, ignoring a failure of the fetch.
\<close>

definition comparisonCommand :: "'w exec \<Rightarrow> env \<Rightarrow> 'w \<Rightarrow> string \<times> 'w" where
  "comparisonCommand exec ev w =
     (let eventName = ev ''GITHUB_EVENT_NAME'';
          baseSha = (if truthy (ev ''GITHUB_BASE_REF'')
                     then ''origin/'' @ interp (ev ''GITHUB_BASE_REF'')
                     else ''HEAD~1'')
      in if eventName = Some ''pull_request''
         then (''git diff --name-status '' @ baseSha @ ''...HEAD'',
               snd (exec w (''git fetch origin '' @ interp (ev ''GITHUB_BASE_REF'') @ '' --depth=1'')))
         else (''git diff --name-status HEAD~1 HEAD'', w))"

definition trackedAsAdded :: "string \<Rightarrow> ChangedFile list" where
  "trackedAsAdded stdout =
     map (\<lambda>p. \<lparr> path = p, changeType = added, previousPath = None \<rparr>) (nonempty_lines stdout)"

text \<open>
  The second half: run the comparison; when it rejects, list the tracked files.  The
  listing is outside any \<open>try\<close>, so its rejection is the function's rejection.
\<close>

definition getChangedFilesFromGit :: "'w exec \<Rightarrow> env \<Rightarrow> 'w \<Rightarrow> (string + ChangedFile list) \<times> 'w" where
  "getChangedFilesFromGit exec ev w =
     (let (diffCommand, w1) = comparisonCommand exec ev w
      in case exec w1 diffCommand of
           (Inr stdout, w2) \<Rightarrow> (Inr (parseGitDiffNameStatus stdout), w2)
         | (Inl err, w2) \<Rightarrow>
             (case exec w2 ''git ls-files'' of
                (Inr stdout, w3) \<Rightarrow> (Inr (trackedAsAdded stdout), w3)
              | (Inl err2, w3) \<Rightarrow> (Inl err2, w3)))"

text \<open>
  \<open>micromatch.isMatch(str, patterns, options)\<close> is
  \<open>picomatch(patterns, options)(str)\<close>.  \<open>picomatch\<close> compiles one glob into a
  matcher, or throws: a \<open>TypeError\<close> for the empty string, and whatever else the
  compiler refuses.  The compiler of a non-empty glob is the parameter \<open>glob\<close>:
  \<open>glob nocase pattern\<close> is the error thrown (\<open>Inl\<close>) or the matcher (\<open>Inr\<close>).
  For an array, every pattern is compiled before the string is looked at, so one
  refused pattern makes the call throw; the compiled array accepts a string when some
  matcher accepts it.
\<close>

type_synonym glob = "bool \<Rightarrow> string \<Rightarrow> string + (string \<Rightarrow> bool)"

definition picomatch :: "glob \<Rightarrow> bool \<Rightarrow> string \<Rightarrow> string + (string \<Rightarrow> bool)" where
  "picomatch glob nocase pat =
     (if pat = [] then Inl ''Expected pattern to be a non-empty string'' else glob nocase pat)"

fun compilePatterns :: "glob \<Rightarrow> bool \<Rightarrow> string list \<Rightarrow> string + (string \<Rightarrow> bool) list" where
  "compilePatterns glob nocase [] = Inr []"
| "compilePatterns glob nocase (pat # pats) =
     (case picomatch glob nocase pat of
        Inl err \<Rightarrow> Inl err
      | Inr m \<Rightarrow>
          (case compilePatterns glob nocase pats of
             Inl err \<Rightarrow> Inl err
           | Inr ms \<Rightarrow> Inr (m # ms)))"

definition isMatch :: "glob \<Rightarrow> string \<Rightarrow> string list \<Rightarrow> bool \<Rightarrow> string + bool" where
  "isMatch glob str pats nocase =
     (case compilePatterns glob nocase pats of
        Inl err \<Rightarrow> Inl err
      | Inr ms \<Rightarrow> Inr (list_ex (\<lambda>m. m str) ms))"

text \<open>
  \<open>files.filter(callback)\<close> calls the callback on the files in order; the first
  call that throws ends the filter with that error, and no call is made on an empty
  list.  The exclude patterns are looked at only for a file that is included, and only
  when there are any.
\<close>

fun filterFilesByPatterns ::
  "glob \<Rightarrow> ChangedFile list \<Rightarrow> string list \<Rightarrow> string list \<Rightarrow> bool \<Rightarrow> string + ChangedFile list" where
  "filterFilesByPatterns glob [] includePatterns excludePats caseSens = Inr []"
| "filterFilesByPatterns glob (f # fs) includePatterns excludePats caseSens =
     (case isMatch glob (path f) includePatterns (\<not> caseSens) of
        Inl err \<Rightarrow> Inl err
      | Inr included \<Rightarrow>
          if \<not> included then filterFilesByPatterns glob fs includePatterns excludePats caseSens
          else if excludePats \<noteq> [] then
            (case isMatch glob (path f) excludePats (\<not> caseSens) of
               Inl err \<Rightarrow> Inl err
             | Inr excluded \<Rightarrow>
                 if excluded then filterFilesByPatterns glob fs includePatterns excludePats caseSens
                 else map_sum id ((#) f)
                        (filterFilesByPatterns glob fs includePatterns excludePats caseSens))
          else map_sum id ((#) f)
                 (filterFilesByPatterns glob fs includePatterns excludePats caseSens))"

text \<open>
  A pattern matches a string when it compiles and its matcher accepts the string.
\<close>

definition matchesPattern :: "glob \<Rightarrow> bool \<Rightarrow> string \<Rightarrow> string \<Rightarrow> bool" where
  "matchesPattern glob nocase pat str =
     (case picomatch glob nocase pat of Inl err \<Rightarrow> False | Inr m \<Rightarrow> m str)"

definition typeGate :: "bool \<Rightarrow> bool \<Rightarrow> ChangedFile \<Rightarrow> bool" where
  "typeGate onNew onDeleted f =
     (if changeType f = added \<and> \<not> onNew then False
      else if changeType f = deleted \<and> \<not> onDeleted then False
      else True)"

definition detectChangedFiles ::
  "glob \<Rightarrow> 'w exec \<Rightarrow> env \<Rightarrow> FileDetectorOptions \<Rightarrow> 'w \<Rightarrow> (string + ChangedFile list) \<times> 'w" where
  "detectChangedFiles glob exec ev opts w =
     (case getChangedFilesFromGit exec ev w of
        (Inl err, w') \<Rightarrow> (Inl err, w')
      | (Inr changedFiles, w') \<Rightarrow>
          (case filterFilesByPatterns glob changedFiles (patterns opts)
                  (excludePatterns opts) (caseSensitive opts) of
             Inl err \<Rightarrow> (Inl err, w')
           | Inr matchedFiles \<Rightarrow>
               (Inr (filter (typeGate (createOnNewFiles opts) (createOnDeletedFiles opts)) matchedFiles),
                w')))"

section \<open>diff-generator.ts: running git diff\<close>

definition getBaseSha :: "env \<Rightarrow> string" where
  "getBaseSha ev =
     (if ev ''GITHUB_EVENT_NAME'' = Some ''pull_request''
      then (if truthy (ev ''GITHUB_BASE_REF'') then ''origin/'' @ interp (ev ''GITHUB_BASE_REF'')
            else ''HEAD~1'')
      else ''HEAD~1'')"

definition quoted :: "string \<Rightarrow> string" where
  "quoted s = [CHR 0x22] @ s @ [CHR 0x22]"

definition diffCommandFor :: "env \<Rightarrow> ChangedFile \<Rightarrow> int \<Rightarrow> string" where
  "diffCommandFor ev f ctxLines =
     (let baseSha = getBaseSha ev;
          prefix = ''git diff -U'' @ show_int ctxLines @ '' '' @ baseSha @ '' HEAD -- ''
      in if changeType f = deleted then prefix @ quoted (path f)
         else if changeType f = added then prefix @ quoted (path f)
         else if changeType f = renamed \<and> truthy (previousPath f)
           then prefix @ quoted (interp (previousPath f)) @ '' '' @ quoted (path f)
         else prefix @ quoted (path f))"

definition unableToDiff :: "ChangedFile \<Rightarrow> FileDiff" where
  "unableToDiff f =
     \<lparr> file' = f, diff = ''Unable to generate diff for this file.'', truncated = False, lineCount = 0 \<rparr>"

definition generateDiffForFile :: "'w exec \<Rightarrow> env \<Rightarrow> ChangedFile \<Rightarrow> DiffOptions \<Rightarrow> 'w \<Rightarrow> FileDiff \<times> 'w" where
  "generateDiffForFile exec ev f options w =
     (case exec w (diffCommandFor ev f (contextLines options)) of
        (Inr stdout, w') \<Rightarrow> (processDiffOutput f stdout (maxLines options), w')
      | (Inl err, w') \<Rightarrow> (unableToDiff f, w'))"

fun generateDiffs :: "'w exec \<Rightarrow> env \<Rightarrow> ChangedFile list \<Rightarrow> DiffOptions \<Rightarrow> 'w \<Rightarrow> FileDiff list \<times> 'w" where
  "generateDiffs exec ev [] options w = ([], w)"
| "generateDiffs exec ev (f # fs) options w =
     (let (d, w1) = generateDiffForFile exec ev f options w;
          (ds, w2) = generateDiffs exec ev fs options w1
      in (d # ds, w2))"

definition formatDiffAsCodeBlock :: "string \<Rightarrow> string" where
  "formatDiffAsCodeBlock d =
     (if d = [] \<or> trim d = [] then ''```\<newline>No changes detected.\<newline>```''
      else ''```diff\<newline>'' @ d @ ''\<newline>```'')"

section \<open>template-renderer.ts\<close>

record TemplateContext =
  filename :: string
  file_path :: string
  file_link :: string
  diff :: string
  diff_raw :: string
  commit_sha :: string
  commit_sha_short :: string
  commit_link :: string
  commit_message :: string
  commit_date :: string
  author :: string
  pull_request :: bool
  pr_number :: string
  pr_link :: string
  pr_title :: string
  branch :: string
  change_type :: string
  previous_path :: string

text \<open>
  \<open>Partial<TemplateContext>\<close>: the same fields, each of them optional (\<open>None\<close> is
  an absent field).
\<close>

record PartialTemplateContext =
  filename_opt :: "string option"
  file_path_opt :: "string option"
  file_link_opt :: "string option"
  diff_opt :: "string option"
  diff_raw_opt :: "string option"
  commit_sha_opt :: "string option"
  commit_sha_short_opt :: "string option"
  commit_link_opt :: "string option"
  commit_message_opt :: "string option"
  commit_date_opt :: "string option"
  author_opt :: "string option"
  pull_request_opt :: "bool option"
  pr_number_opt :: "string option"
  pr_link_opt :: "string option"
  pr_title_opt :: "string option"
  branch_opt :: "string option"
  change_type_opt :: "string option"
  previous_path_opt :: "string option"

record RenderOptions =
  titleTemplate :: string
  bodyTemplate :: string
  includeDiff :: bool
  includeFileLink :: bool
  includeCommitLink :: bool
  includePrLink :: bool
  sanitizeDiff :: bool

record RenderedIssue =
  title :: string
  body :: string

definition DEFAULT_TEMPLATE :: string where
  "DEFAULT_TEMPLATE =
     ''## Specification Changed\<newline>'' @
     ''\<newline>'' @
     ''A specification file has been modified and may require implementation changes.\<newline>'' @
     ''\<newline>'' @
     ''**File:** {{ file_path }}\<newline>'' @
     ''**Changed in:** {{ commit_sha_short }} ({{ commit_link }})\<newline>'' @
     ''{{#if pull_request}}\<newline>'' @
     ''**Pull Request:** {{ pr_link }}\<newline>'' @
     ''{{/if}}\<newline>'' @
     ''**Author:** @'' @ ''{{ author }}\<newline>'' @
     ''**Date:** {{ commit_date }}\<newline>'' @
     ''\<newline>'' @
     ''## Changes\<newline>'' @
     ''\<newline>'' @
     ''{{{ diff }}}\<newline>'' @
     ''\<newline>'' @
     ''## Checklist\<newline>'' @
     ''\<newline>'' @
     ''- [ ] Reviewed specification change\<newline>'' @
     ''- [ ] Determined if code changes are required\<newline>'' @
     ''- [ ] Implementation complete (or confirmed no changes needed)\<newline>'' @
     ''\<newline>'' @
     ''---\<newline>'' @
     ''*This issue was automatically created by [spec-ops-action](https://github.com/spec-ops-method/spec-ops-action)*''"

text \<open>
  Node's POSIX \<open>path\<close> module.  \<open>path.basename\<close> is the last non-empty segment
  (trailing slashes are ignored); \<open>path.resolve(cwd, p)\<close>, for an absolute
  \<open>cwd\<close> and a non-empty \<open>p\<close>, starts from \<open>p\<close> itself when \<open>p\<close> is absolute
  and from \<open>cwd/p\<close> otherwise, drops empty and \<open>.\<close> segments, lets \<open>..\<close> remove
  the segment before it (nothing at the root), and prints the segments after a
  leading slash.
\<close>

definition basename :: "string \<Rightarrow> string" where
  "basename p =
     (let segs = filter (\<lambda>s. s \<noteq> []) (split_on CHR ''/'' p)
      in if segs = [] then [] else last segs)"

fun normalizeSegments :: "string list \<Rightarrow> string list \<Rightarrow> string list" where
  "normalizeSegments acc [] = acc"
| "normalizeSegments acc (s # ss) =
     (if s = [] \<or> s = ''.'' then normalizeSegments acc ss
      else if s = ''..'' then normalizeSegments (butlast acc) ss
      else normalizeSegments (acc @ [s]) ss)"

definition path_resolve :: "string \<Rightarrow> string \<Rightarrow> string" where
  "path_resolve cwd p =
     CHR ''/'' # join_with ''/''
       (normalizeSegments []
          (split_on CHR ''/'' (if startsWith p ''/'' then p else cwd @ ''/'' @ p)))"

definition getRepoUrl :: "env \<Rightarrow> string" where
  "getRepoUrl ev =
     js_or (ev ''GITHUB_SERVER_URL'') ''https://github.com'' @ ''/'' @ js_or (ev ''GITHUB_REPOSITORY'') []"

definition changeType_string :: "change_type \<Rightarrow> string" where
  "changeType_string t =
     (case t of added \<Rightarrow> ''added'' | modified \<Rightarrow> ''modified''
              | deleted \<Rightarrow> ''deleted'' | renamed \<Rightarrow> ''renamed'')"

text \<open>
  \<open>now\<close> is what \<open>new Date().toISOString()\<close> returns at the moment of the call;
  it is read only when the context carries no commit date.
\<close>

definition buildTemplateContext ::
  "env \<Rightarrow> string \<Rightarrow> FileDiff \<Rightarrow> PartialTemplateContext \<Rightarrow> RenderOptions \<Rightarrow> TemplateContext" where
  "buildTemplateContext ev now fileDiff baseContext options =
     (let f = file' fileDiff;
          formattedDiff = (if includeDiff options then formatDiffAsCodeBlock (FileDiff.diff fileDiff) else []);
          repoUrl = getRepoUrl ev;
          commitSha = js_or (commit_sha_opt baseContext) (js_or (ev ''GITHUB_SHA'') []);
          prNumber = js_or (pr_number_opt baseContext) []
      in \<lparr> filename = basename (path f),
           file_path = path f,
           file_link = (if includeFileLink options
                        then repoUrl @ ''/blob/'' @ commitSha @ ''/'' @ path f else []),
           diff = (if sanitizeDiff options then formattedDiff else formattedDiff),
           diff_raw = (if includeDiff options then FileDiff.diff fileDiff else []),
           commit_sha = commitSha,
           commit_sha_short = take 7 commitSha,
           commit_link = (if includeCommitLink options
                          then repoUrl @ ''/commit/'' @ commitSha else []),
           commit_message = js_or (commit_message_opt baseContext) [],
           commit_date = js_or (commit_date_opt baseContext) now,
           author = js_or (author_opt baseContext) [],
           pull_request = (prNumber \<noteq> []),
           pr_number = prNumber,
           pr_link = (if includePrLink options \<and> prNumber \<noteq> []
                      then repoUrl @ ''/pull/'' @ prNumber else []),
           pr_title = js_or (pr_title_opt baseContext) [],
           branch = js_or (branch_opt baseContext) (js_or (ev ''GITHUB_REF_NAME'') []),
           change_type = changeType_string (changeType f),
           previous_path = js_or (previousPath f) [] \<rparr>)"

text \<open>
  The file system as \<open>fs.existsSync\<close> and \<open>fs.readFileSync\<close> see it: a path is
  absent, a readable file with its content, or something whose read throws (a
  directory, a file without permission) with the error's text.  The events of one call
  are returned in order of occurrence; \<open>ReadFile p\<close> is a call of
  \<open>fs.readFileSync\<close> on \<open>p\<close>.
\<close>

datatype fs_entry = File string | Unreadable string

datatype event = Warning string | Debug string | ReadFile string

definition resolveBodyTemplate :: "string \<Rightarrow> (string \<rightharpoonup> fs_entry) \<Rightarrow> string \<Rightarrow> string \<times> event list" where
  "resolveBodyTemplate cwd fs templateInput =
     (if templateInput = [] \<or> trim templateInput = [] then (DEFAULT_TEMPLATE, [])
      else if endsWith templateInput ''.md'' \<or> CHR ''/'' \<in> set templateInput then
        (let templatePath = path_resolve cwd templateInput;
             repoRoot = cwd
         in if \<not> startsWith templatePath repoRoot
            then (DEFAULT_TEMPLATE,
                  [Warning (''Template path resolves outside repo root: '' @ templatePath
                            @ ''. Using default template.'')])
            else (case fs templatePath of
                    Some (File content) \<Rightarrow>
                      (content,
                       [Debug (''Loading template from file: '' @ templatePath), ReadFile templatePath])
                  | Some (Unreadable err) \<Rightarrow>
                      (DEFAULT_TEMPLATE,
                       [Debug (''Loading template from file: '' @ templatePath), ReadFile templatePath,
                        Warning (''Error reading template file: '' @ err @ '', using default template'')])
                  | None \<Rightarrow>
                      (DEFAULT_TEMPLATE,
                       [Warning (''Template file not found: '' @ templatePath
                                 @ '', using default template'')])))
      else (templateInput, []))"

text \<open>
  \<open>Handlebars.compile(template)(context)\<close> is the parameter \<open>compile\<close>: a function
  of the template text and the context that returns the rendered text (\<open>Inr\<close>) or
  throws (\<open>Inl\<close>, for a template that does not parse).  The title is rendered before
  the body template is resolved, so a throwing title leaves no event.
\<close>

definition renderIssue ::
  "(string \<Rightarrow> TemplateContext \<Rightarrow> string + string) \<Rightarrow> env \<Rightarrow> string \<Rightarrow> (string \<rightharpoonup> fs_entry) \<Rightarrow> string
     \<Rightarrow> FileDiff \<Rightarrow> RenderOptions \<Rightarrow> PartialTemplateContext
     \<Rightarrow> (string + RenderedIssue) \<times> event list" where
  "renderIssue compile ev cwd fs now fileDiff options context =
     (let fullContext = buildTemplateContext ev now fileDiff context options
      in case compile (titleTemplate options) fullContext of
           Inl err \<Rightarrow> (Inl err, [])
         | Inr t \<Rightarrow>
             (let (bodyTemplateContent, events) = resolveBodyTemplate cwd fs (bodyTemplate options)
              in case compile bodyTemplateContent fullContext of
                   Inl err \<Rightarrow> (Inl err, events)
                 | Inr b \<Rightarrow> (Inr \<lparr> title = t, body = b \<rparr>, events)))"

section \<open>A fragment of Handlebars for the worked examples\<close>

text \<open>
  The results about \<open>renderIssue\<close> hold for every template engine.  The worked
  examples need one: this is Handlebars restricted to templates made of literal text and
  escaped references \<open>{{ field }}\<close> to the fields of the context.  Anything else
  (blocks, triple braces, helpers, escapes, unknown names) is reported as unsupported
  rather than guessed.
\<close>

definition escapeExpression :: "string \<Rightarrow> string" where
  "escapeExpression s =
     concat (map (\<lambda>c.
       if c = CHR ''&'' then ''&amp;''
       else if c = CHR ''<'' then ''&lt;''
       else if c = CHR ''>'' then ''&gt;''
       else if c = CHR 0x22 then ''&quot;''
       else if c = CHR 0x27 then ''&#x27;''
       else if c = CHR 0x60 then ''&#x60;''
       else if c = CHR ''='' then ''&#x3D;''
       else [c]) s)"

definition contextField :: "TemplateContext \<Rightarrow> string \<Rightarrow> string option" where
  "contextField ctx name =
     (if name = ''filename'' then Some (filename ctx)
      else if name = ''file_path'' then Some (file_path ctx)
      else if name = ''file_link'' then Some (file_link ctx)
      else if name = ''diff'' then Some (TemplateContext.diff ctx)
      else if name = ''diff_raw'' then Some (diff_raw ctx)
      else if name = ''commit_sha'' then Some (commit_sha ctx)
      else if name = ''commit_sha_short'' then Some (commit_sha_short ctx)
      else if name = ''commit_link'' then Some (commit_link ctx)
      else if name = ''commit_message'' then Some (commit_message ctx)
      else if name = ''commit_date'' then Some (commit_date ctx)
      else if name = ''author'' then Some (author ctx)
      else if name = ''pull_request'' then Some (if pull_request ctx then ''true'' else ''false'')
      else if name = ''pr_number'' then Some (pr_number ctx)
      else if name = ''pr_link'' then Some (pr_link ctx)
      else if name = ''pr_title'' then Some (pr_title ctx)
      else if name = ''branch'' then Some (branch ctx)
      else if name = ''change_type'' then Some (change_type ctx)
      else if name = ''previous_path'' then Some (previous_path ctx)
      else None)"

text \<open>
  The scanner: \<open>None\<close> while copying text, \<open>Some acc\<close> inside a tag whose
  characters so far are \<open>acc\<close>.
\<close>

fun mustache :: "string option \<Rightarrow> string \<Rightarrow> TemplateContext \<Rightarrow> string + string" where
  "mustache None [] ctx = Inr []"
| "mustache None [c] ctx = Inr [c]"
| "mustache None (c # d # cs) ctx =
     (if c = CHR ''{'' \<and> d = CHR ''{'' then mustache (Some []) cs ctx
      else map_sum id ((#) c) (mustache None (d # cs) ctx))"
| "mustache (Some acc) (c # d # cs) ctx =
     (if c = CHR ''}'' \<and> d = CHR ''}''
      then (case contextField ctx (trim acc) of
              None \<Rightarrow> Inl ''unsupported template''
            | Some v \<Rightarrow> map_sum id ((@) (escapeExpression v)) (mustache None cs ctx))
      else mustache (Some (acc @ [c])) (d # cs) ctx)"
| "mustache (Some acc) cs ctx = Inl ''Parse error''"

definition handlebarsFragment :: "string \<Rightarrow> TemplateContext \<Rightarrow> string + string" where
  "handlebarsFragment template ctx =
     (if CHR 0x5C \<in> set template then Inl ''unsupported template''
      else mustache None template ctx)"

section \<open>Values used in the worked examples\<close>

definition tab :: string where
  "tab = [CHR 0x09]"

definition newline :: string where
  "newline = [CHR 0x0A]"

definition emptyContext :: PartialTemplateContext where
  "emptyContext =
     \<lparr> filename_opt = None, file_path_opt = None, file_link_opt = None, diff_opt = None,
       diff_raw_opt = None, commit_sha_opt = None, commit_sha_short_opt = None,
       commit_link_opt = None, commit_message_opt = None, commit_date_opt = None,
       author_opt = None, pull_request_opt = None, pr_number_opt = None, pr_link_opt = None,
       pr_title_opt = None, branch_opt = None, change_type_opt = None, previous_path_opt = None \<rparr>"

definition specFile :: ChangedFile where
  "specFile = \<lparr> path = ''docs/api-specification.md'', changeType = modified, previousPath = None \<rparr>"

definition specDiff :: FileDiff where
  "specDiff =
     \<lparr> file' = specFile, FileDiff.diff = ''+added line\<newline>-removed line'', truncated = False,
       lineCount = 2 \<rparr>"

text \<open>A world without a repository: every command is rejected.\<close>

definition noRepository :: "unit exec" where
  "noRepository w cmd = (Inl ''fatal: not a git repository'', w)"

text \<open>Inside a pattern-matcher example a glob is compared literally.\<close>

definition literalGlob :: glob where
  "literalGlob nocase pat = Inr (\<lambda>str. pat = str)"

text \<open>A world that answers the listed commands as scripted and rejects every other one.\<close>

definition scriptedGit :: "(string \<times> (string + string)) list \<Rightarrow> unit exec" where
  "scriptedGit script w cmd =
     (case map_of script cmd of Some r \<Rightarrow> (r, w) | None \<Rightarrow> (Inl ''Command failed'', w))"

definition pushOutput :: string where
  "pushOutput =
     ''M'' @ tab @ ''docs/a.md'' @ newline @
     ''A'' @ tab @ ''docs/b.md'' @ newline @
     ''D'' @ tab @ ''docs/c.md'' @ newline @
     ''R100'' @ tab @ ''docs/old.md'' @ tab @ ''docs/d.md'' @ newline"

definition pushWorld :: "unit exec" where
  "pushWorld = scriptedGit [(''git diff --name-status HEAD~1 HEAD'', Inr pushOutput)]"

definition pushOptions :: FileDetectorOptions where
  "pushOptions =
     \<lparr> patterns = [''docs/a.md'', ''docs/b.md'', ''docs/c.md'', ''docs/d.md''],
       excludePatterns = [''docs/c.md''],
       caseSensitive = True,
       createOnNewFiles = False,
       createOnDeletedFiles = True \<rparr>"

text \<open>The same options with an empty string among the include patterns.\<close>

definition emptyIncludeOptions :: FileDetectorOptions where
  "emptyIncludeOptions = pushOptions \<lparr> patterns := [''docs/a.md'', []] \<rparr>"

text \<open>One include pattern, and the empty string as the only exclude pattern.\<close>

definition emptyExcludeOptions :: FileDetectorOptions where
  "emptyExcludeOptions = pushOptions \<lparr> patterns := [''docs/a.md''], excludePatterns := [[]] \<rparr>"

definition pushEnv :: env where
  "pushEnv = [''GITHUB_EVENT_NAME'' \<mapsto> ''push'', ''GITHUB_REPOSITORY'' \<mapsto> ''test-org/test-repo'']"

text \<open>An initial commit: the comparison is rejected, the listing answers.\<close>

definition initialCommitWorld :: "unit exec" where
  "initialCommitWorld =
     scriptedGit [(''git ls-files'', Inr (''README.md'' @ newline @ ''docs/a.md'' @ newline))]"

definition defaultDiffOptions :: DiffOptions where
  "defaultDiffOptions = \<lparr> contextLines = 3, maxLines = 500 \<rparr>"

definition otherFile :: ChangedFile where
  "otherFile = \<lparr> path = ''docs/b.md'', changeType = added, previousPath = None \<rparr>"

text \<open>A world in which the diff of \<open>docs/b.md\<close> succeeds and every other command fails.\<close>

definition oneDiffWorld :: "unit exec" where
  "oneDiffWorld =
     scriptedGit [(''git diff -U3 HEAD~1 HEAD -- '' @ quoted ''docs/b.md'', Inr ''+new file'')]"

definition dateOptions :: RenderOptions where
  "dateOptions =
     \<lparr> titleTemplate = ''Specification Change: {{ filename }}'',
       bodyTemplate = ''Date: {{ commit_date }}'',
       includeDiff = True, includeFileLink = True, includeCommitLink = True,
       includePrLink = True, sanitizeDiff = True \<rparr>"

definition datedContext :: PartialTemplateContext where
  "datedContext = emptyContext \<lparr> commit_date_opt := Some ''2025-12-01'' \<rparr>"

definition noFiles :: "string \<rightharpoonup> fs_entry" where
  "noFiles = Map.empty"

text \<open>
  A runner whose work directory holds the checked-out repository \<open>repo\<close> beside a
  directory \<open>repo-private\<close> that is not part of it.
\<close>

definition runnerCwd :: string where
  "runnerCwd = ''/home/runner/work/repo''"

definition runnerFiles :: "string \<rightharpoonup> fs_entry" where
  "runnerFiles = [''/home/runner/work/repo-private/notes.md'' \<mapsto> File ''PRIVATE NOTES'']"

text \<open>
  What the claim about the template path guard calls a path that stays inside the
  repository root: the root itself or a path below it, segment by segment.
\<close>

definition pathSegments :: "string \<Rightarrow> string list" where
  "pathSegments p = filter (\<lambda>s. s \<noteq> []) (split_on CHR ''/'' p)"

definition insideRoot :: "string \<Rightarrow> string \<Rightarrow> bool" where
  "insideRoot root p = (take (length (pathSegments root)) (pathSegments p) = pathSegments root)"

definition actionEnv :: env where
  "actionEnv =
     [''GITHUB_SERVER_URL'' \<mapsto> ''https://github.com'',
      ''GITHUB_REPOSITORY'' \<mapsto> ''test-org/test-repo'',
      ''GITHUB_SHA'' \<mapsto> ''abc1234567890'']"

definition prContext :: PartialTemplateContext where
  "prContext = emptyContext \<lparr> pr_number_opt := Some ''42'', pr_title_opt := Some ''Update specifications'' \<rparr>"

text \<open>A listing whose only tracked file has a name that begins with a space.\<close>

definition spacedListingWorld :: "unit exec" where
  "spacedListingWorld = scriptedGit [(''git ls-files'', Inr ('' a.md'' @ newline))]"



section \<open>Splitting and joining\<close>

lemma split_on_not_Nil [simp]: "split_on c s \<noteq> []"
  by (induction s) (auto simp: Let_def)

lemma split_on_length_pos [simp]: "0 < length (split_on c s)"
  by (cases "split_on c s") auto

lemma split_on_no_sep: "l \<in> set (split_on c s) \<Longrightarrow> c \<notin> set l"
proof (induction s arbitrary: l)
  case Nil
  then show ?case by simp
next
  case (Cons x xs)
  obtain h t where r: "split_on c xs = h # t"
    by (cases "split_on c xs") auto
  have h: "c \<notin> set h" and t: "\<And>m. m \<in> set t \<Longrightarrow> c \<notin> set m"
    using Cons.IH r by auto
  show ?case
  proof (cases "x = c")
    case True
    with Cons.prems r h t show ?thesis by auto
  next
    case False
    with Cons.prems r h t show ?thesis by (auto simp: Let_def)
  qed
qed

lemma join_split_on: "join_with [c] (split_on c s) = s"
proof (induction s)
  case Nil
  then show ?case by simp
next
  case (Cons x xs)
  obtain h t where r: "split_on c xs = h # t"
    by (cases "split_on c xs") auto
  show ?case
  proof (cases "x = c")
    case True
    with Cons r show ?thesis by simp
  next
    case False
    with Cons r show ?thesis by (cases t) (auto simp: Let_def)
  qed
qed

lemma split_on_no_occurrence: "c \<notin> set l \<Longrightarrow> split_on c l = [l]"
  by (induction l) (auto simp: Let_def)

lemma split_on_append_sep:
  "c \<notin> set l \<Longrightarrow> split_on c (l @ c # s) = l # split_on c s"
  by (induction l) (auto simp: Let_def)

lemma split_on_join:
  "ls \<noteq> [] \<Longrightarrow> \<forall>l\<in>set ls. c \<notin> set l \<Longrightarrow> split_on c (join_with [c] ls) = ls"
proof (induction ls)
  case Nil
  then show ?case by simp
next
  case (Cons x xs)
  show ?case
  proof (cases xs)
    case Nil
    with Cons.prems show ?thesis by (simp add: split_on_no_occurrence)
  next
    case (Cons y ys)
    with Cons.IH Cons.prems show ?thesis by (simp add: split_on_append_sep)
  qed
qed

lemma digit_char_not_nl: "d < 10 \<Longrightarrow> CHR 0x0A \<noteq> digit_char d"
proof -
  assume "d < 10"
  then have "d \<in> {0,1,2,3,4,5,6,7,8,9}" by auto
  then show ?thesis by (auto simp: digit_char_def)
qed

lemma show_nat_no_nl: "CHR 0x0A \<notin> set (show_nat n)"
proof (induction n rule: show_nat.induct)
  case (1 n)
  show ?case
  proof (cases "n < 10")
    case True
    then show ?thesis by (subst show_nat.simps) (simp add: digit_char_not_nl)
  next
    case False
    with 1 show ?thesis by (subst show_nat.simps) (simp add: digit_char_not_nl)
  qed
qed

lemma show_int_no_nl: "CHR 0x0A \<notin> set (show_int i)"
  by (simp add: show_int_def show_nat_no_nl)

lemma truncation_note_no_nl: "CHR 0x0A \<notin> set (truncation_note n)"
  by (simp add: truncation_note_def show_int_no_nl)


section \<open>Truncation of a diff\<close>

text \<open>
  Claim C1.  For every raw diff and every positive \<open>maxLines\<close>:
  \<open>processDiffOutput\<close> sets \<open>truncated\<close> exactly when the number of lines of the
  raw diff (the pieces of \<open>rawDiff.split('\n')\<close>) exceeds \<open>maxLines\<close>; the
  reported \<open>lineCount\<close> is always that number; a diff of at most \<open>maxLines\<close>
  lines is returned unchanged and not truncated; a longer one is returned as the text
  whose lines are the first \<open>maxLines\<close> lines of the input, then an empty line, then
  the note with the omitted count \<open>lineCount - maxLines\<close>.
\<close>

theorem processDiffOutput_truncation:
  assumes "0 < maxL"
  shows "(truncated (processDiffOutput f raw maxL) \<longleftrightarrow> int (length (split_on CHR 0x0A raw)) > maxL)
       \<and> lineCount (processDiffOutput f raw maxL) = int (length (split_on CHR 0x0A raw))
       \<and> (int (length (split_on CHR 0x0A raw)) \<le> maxL \<longrightarrow>
            FileDiff.diff (processDiffOutput f raw maxL) = raw \<and> \<not> truncated (processDiffOutput f raw maxL))
       \<and> (int (length (split_on CHR 0x0A raw)) > maxL \<longrightarrow>
            split_on CHR 0x0A (FileDiff.diff (processDiffOutput f raw maxL))
              = take (nat maxL) (split_on CHR 0x0A raw)
                @ [[], ''... (diff truncated, '' @ show_int (int (length (split_on CHR 0x0A raw)) - maxL)
                         @ '' more lines)''])"
proof -
  let ?ls = "split_on CHR 0x0A raw"
  let ?out = "take (nat maxL) ?ls @ [[], truncation_note (int (length ?ls) - maxL)]"
  have nosep: "\<forall>l\<in>set ?out. CHR 0x0A \<notin> set l"
    using split_on_no_sep[of _ "CHR 0x0A" raw] truncation_note_no_nl
    by (auto dest: in_set_takeD)
  have "split_on CHR 0x0A (join_with [CHR 0x0A] ?out) = ?out"
    by (rule split_on_join[OF _ nosep]) simp
  with assms show ?thesis
    by (simp add: processDiffOutput_def Let_def slice0_def truncation_note_def)
qed

theorem processDiffOutput_truncation_witness:
  "(0::int) < 2
   \<and> processDiffOutput specFile ''a\<newline>b'' 2
       = \<lparr> file' = specFile, FileDiff.diff = ''a\<newline>b'', truncated = False, lineCount = 2 \<rparr>
   \<and> truncated (processDiffOutput specFile ''a\<newline>b\<newline>c\<newline>d'' 2)
   \<and> lineCount (processDiffOutput specFile ''a\<newline>b\<newline>c\<newline>d'' 2) = 4
   \<and> split_on CHR 0x0A (FileDiff.diff (processDiffOutput specFile ''a\<newline>b\<newline>c\<newline>d'' 2))
       = [''a'', ''b'', [], ''... (diff truncated, 2 more lines)'']"
proof -
  have pos: "(0::int) < 2" by simp
  have short: "split_on CHR 0x0A ''a\<newline>b'' = [''a'', ''b'']"
    by (simp add: Let_def)
  have long: "split_on CHR 0x0A ''a\<newline>b\<newline>c\<newline>d'' = [''a'', ''b'', ''c'', ''d'']"
    by (simp add: Let_def)
  have two: "show_int 2 = ''2''"
    by (simp add: show_int_def show_nat.simps digit_char_def)
  have r1: "processDiffOutput specFile ''a\<newline>b'' 2
       = \<lparr> file' = specFile, FileDiff.diff = ''a\<newline>b'', truncated = False, lineCount = 2 \<rparr>"
    by (simp add: processDiffOutput_def short)
  show ?thesis
    using processDiffOutput_truncation [OF pos, of specFile "''a\<newline>b\<newline>c\<newline>d''"] r1
    by (simp add: long two)
qed

section \<open>Filtering the changed files\<close>

lemma compilePatterns_accepted:
  assumes "\<forall>p\<in>set pats. \<exists>m. picomatch glob nocase p = Inr m"
  shows "\<exists>ms. compilePatterns glob nocase pats = Inr ms
           \<and> list_ex (\<lambda>m. m str) ms = (\<exists>p\<in>set pats. matchesPattern glob nocase p str)"
  using assms
proof (induction pats)
  case Nil
  then show ?case by simp
next
  case (Cons p ps)
  from Cons.prems obtain m where m: "picomatch glob nocase p = Inr m" by auto
  from Cons.IH Cons.prems obtain ms where ms: "compilePatterns glob nocase ps = Inr ms"
    and ex: "list_ex (\<lambda>m. m str) ms = (\<exists>p\<in>set ps. matchesPattern glob nocase p str)"
    by auto
  show ?case
    using m ms ex by (simp add: matchesPattern_def)
qed

lemma isMatch_accepted:
  assumes "\<forall>p\<in>set pats. \<exists>m. picomatch glob nocase p = Inr m"
  shows "isMatch glob str pats nocase = Inr (\<exists>p\<in>set pats. matchesPattern glob nocase p str)"
proof -
  from compilePatterns_accepted[OF assms, of str] obtain ms
    where "compilePatterns glob nocase pats = Inr ms"
      and "list_ex (\<lambda>m. m str) ms = (\<exists>p\<in>set pats. matchesPattern glob nocase p str)"
    by blast
  then show ?thesis by (simp add: isMatch_def)
qed

lemma filterFilesByPatterns_accepted:
  assumes "\<forall>p\<in>set incl. \<exists>m. picomatch glob (\<not> cs) p = Inr m"
    and "\<forall>p\<in>set excl. \<exists>m. picomatch glob (\<not> cs) p = Inr m"
  shows "filterFilesByPatterns glob files incl excl cs =
     Inr (filter (\<lambda>f. (\<exists>p\<in>set incl. matchesPattern glob (\<not> cs) p (path f))
                     \<and> (\<forall>p\<in>set excl. \<not> matchesPattern glob (\<not> cs) p (path f))) files)"
proof (induction files)
  case Nil
  show ?case by simp
next
  case (Cons f fs)
  show ?case
  proof (cases "excl = []")
    case True
    with Cons.IH show ?thesis
      by (simp add: isMatch_accepted[OF assms(1)])
  next
    case False
    with Cons.IH show ?thesis
      by (simp add: isMatch_accepted[OF assms(1)] isMatch_accepted[OF assms(2)])
  qed
qed

lemma filterFilesByPatterns_subset:
  "filterFilesByPatterns glob files incl excl cs = Inr kept \<Longrightarrow> set kept \<subseteq> set files"
proof (induction files arbitrary: kept)
  case Nil
  then show ?case by simp
next
  case (Cons f fs)
  show ?case
  proof (cases "filterFilesByPatterns glob fs incl excl cs")
    case (Inl e)
    with Cons.prems show ?thesis
      by (auto split: sum.splits if_splits)
  next
    case (Inr rest)
    with Cons.IH have "set rest \<subseteq> set fs" by simp
    with Cons.prems Inr show ?thesis
      by (auto split: sum.splits if_splits)
  qed
qed

lemma typeGate_iff:
  "typeGate onNew onDeleted f \<longleftrightarrow>
     (changeType f = added \<longrightarrow> onNew) \<and> (changeType f = deleted \<longrightarrow> onDeleted)"
  by (auto simp: typeGate_def)

text \<open>
  Claim C2, as amended.  Whatever the changed files, the case-sensitivity flag and the
  two toggles, and for include and exclude patterns that \<open>picomatch\<close> accepts (none
  of them is the empty string): the files that \<open>detectChangedFiles\<close> returns are, in
  their order, exactly the changed files whose path matches at least one include
  pattern, matches no exclude pattern, and whose change type is not gated off (an added
  file needs \<open>createOnNewFiles\<close>, a deleted one \<open>createOnDeletedFiles\<close>).  For a
  renamed or modified file the two toggles play no part.
\<close>

theorem detectChangedFiles_survivors:
  assumes "getChangedFilesFromGit exec ev w = (Inr changed, w')"
    and "\<forall>p\<in>set (patterns opts). \<exists>m. picomatch glob (\<not> caseSensitive opts) p = Inr m"
    and "\<forall>p\<in>set (excludePatterns opts). \<exists>m. picomatch glob (\<not> caseSensitive opts) p = Inr m"
  shows "\<exists>kept. detectChangedFiles glob exec ev opts w = (Inr kept, w')
     \<and> kept = filter (\<lambda>f. (\<exists>p\<in>set (patterns opts). matchesPattern glob (\<not> caseSensitive opts) p (path f))
                        \<and> (\<forall>p\<in>set (excludePatterns opts). \<not> matchesPattern glob (\<not> caseSensitive opts) p (path f))
                        \<and> (changeType f = added \<longrightarrow> createOnNewFiles opts)
                        \<and> (changeType f = deleted \<longrightarrow> createOnDeletedFiles opts)) changed
     \<and> (\<forall>f. f \<in> set kept \<longleftrightarrow>
            f \<in> set changed
            \<and> (\<exists>p\<in>set (patterns opts). matchesPattern glob (\<not> caseSensitive opts) p (path f))
            \<and> (\<forall>p\<in>set (excludePatterns opts). \<not> matchesPattern glob (\<not> caseSensitive opts) p (path f))
            \<and> (changeType f = added \<longrightarrow> createOnNewFiles opts)
            \<and> (changeType f = deleted \<longrightarrow> createOnDeletedFiles opts))
     \<and> (\<forall>f. changeType f = renamed \<or> changeType f = modified \<longrightarrow>
            (f \<in> set kept \<longleftrightarrow>
               f \<in> set changed
               \<and> (\<exists>p\<in>set (patterns opts). matchesPattern glob (\<not> caseSensitive opts) p (path f))
               \<and> (\<forall>p\<in>set (excludePatterns opts). \<not> matchesPattern glob (\<not> caseSensitive opts) p (path f))))"
proof -
  let ?P = "\<lambda>f. (\<exists>p\<in>set (patterns opts). matchesPattern glob (\<not> caseSensitive opts) p (path f))
                        \<and> (\<forall>p\<in>set (excludePatterns opts). \<not> matchesPattern glob (\<not> caseSensitive opts) p (path f))
                        \<and> (changeType f = added \<longrightarrow> createOnNewFiles opts)
                        \<and> (changeType f = deleted \<longrightarrow> createOnDeletedFiles opts)"
  have run: "detectChangedFiles glob exec ev opts w = (Inr (filter ?P changed), w')"
    using assms(1)
    by (simp add: detectChangedFiles_def filterFilesByPatterns_accepted[OF assms(2,3)]
          typeGate_iff conj_ac cong: filter_cong)
  show ?thesis
    unfolding run by auto
qed

lemma pushWorld_changed:
  "getChangedFilesFromGit pushWorld pushEnv ()
     = (Inr [\<lparr> path = ''docs/a.md'', changeType = modified, previousPath = None \<rparr>,
             \<lparr> path = ''docs/b.md'', changeType = added, previousPath = None \<rparr>,
             \<lparr> path = ''docs/c.md'', changeType = deleted, previousPath = None \<rparr>,
             \<lparr> path = ''docs/d.md'', changeType = renamed, previousPath = Some ''docs/old.md'' \<rparr>], ())"
  by code_simp

lemma pushOptions_accepted:
  "(\<forall>p\<in>set (patterns pushOptions). \<exists>m. picomatch literalGlob (\<not> caseSensitive pushOptions) p = Inr m)
   \<and> (\<forall>p\<in>set (excludePatterns pushOptions). \<exists>m. picomatch literalGlob (\<not> caseSensitive pushOptions) p = Inr m)"
  by (simp add: pushOptions_def picomatch_def literalGlob_def)

theorem detectChangedFiles_survivors_witness:
  "getChangedFilesFromGit pushWorld pushEnv ()
     = (Inr [\<lparr> path = ''docs/a.md'', changeType = modified, previousPath = None \<rparr>,
             \<lparr> path = ''docs/b.md'', changeType = added, previousPath = None \<rparr>,
             \<lparr> path = ''docs/c.md'', changeType = deleted, previousPath = None \<rparr>,
             \<lparr> path = ''docs/d.md'', changeType = renamed, previousPath = Some ''docs/old.md'' \<rparr>], ())
   \<and> picomatch literalGlob False ''docs/a.md'' = Inr (\<lambda>str. ''docs/a.md'' = str)
   \<and> detectChangedFiles literalGlob pushWorld pushEnv pushOptions ()
     = (Inr [\<lparr> path = ''docs/a.md'', changeType = modified, previousPath = None \<rparr>,
             \<lparr> path = ''docs/d.md'', changeType = renamed, previousPath = Some ''docs/old.md'' \<rparr>], ())"
  using detectChangedFiles_survivors [OF pushWorld_changed pushOptions_accepted[THEN conjunct1]
          pushOptions_accepted[THEN conjunct2]]
  by (simp add: pushWorld_changed pushOptions_def literalGlob_def matchesPattern_def picomatch_def)

text \<open>
  The claim as stated covers every pattern list.  An empty string among the patterns
  makes \<open>micromatch.isMatch\<close> throw, and the calls are not guarded: the file
  \<open>docs/a.md\<close> matches the include pattern \<open>docs/a.md\<close>, matches no exclude
  pattern and is not gated off, and yet no list of survivors is returned, whether the
  empty string stands among the include patterns or is the exclude pattern.
\<close>

theorem detectChangedFiles_survivors_counterexample:
  "getChangedFilesFromGit pushWorld pushEnv ()
     = (Inr [\<lparr> path = ''docs/a.md'', changeType = modified, previousPath = None \<rparr>,
             \<lparr> path = ''docs/b.md'', changeType = added, previousPath = None \<rparr>,
             \<lparr> path = ''docs/c.md'', changeType = deleted, previousPath = None \<rparr>,
             \<lparr> path = ''docs/d.md'', changeType = renamed, previousPath = Some ''docs/old.md'' \<rparr>], ())
   \<and> patterns emptyIncludeOptions = [''docs/a.md'', []]
   \<and> matchesPattern literalGlob (\<not> caseSensitive emptyIncludeOptions) ''docs/a.md'' ''docs/a.md''
   \<and> \<not> matchesPattern literalGlob (\<not> caseSensitive emptyIncludeOptions) ''docs/c.md'' ''docs/a.md''
   \<and> detectChangedFiles literalGlob pushWorld pushEnv emptyIncludeOptions ()
     = (Inl ''Expected pattern to be a non-empty string'', ())
   \<and> patterns emptyExcludeOptions = [''docs/a.md''] \<and> excludePatterns emptyExcludeOptions = [[]]
   \<and> \<not> matchesPattern literalGlob (\<not> caseSensitive emptyExcludeOptions) [] ''docs/a.md''
   \<and> detectChangedFiles literalGlob pushWorld pushEnv emptyExcludeOptions ()
     = (Inl ''Expected pattern to be a non-empty string'', ())"
proof -
  have a: "detectChangedFiles literalGlob pushWorld pushEnv emptyIncludeOptions ()
     = (Inl ''Expected pattern to be a non-empty string'', ())"
    by code_simp
  have b: "detectChangedFiles literalGlob pushWorld pushEnv emptyExcludeOptions ()
     = (Inl ''Expected pattern to be a non-empty string'', ())"
    by code_simp
  show ?thesis
    unfolding a b
    by (simp add: pushWorld_changed emptyIncludeOptions_def emptyExcludeOptions_def pushOptions_def
          matchesPattern_def picomatch_def literalGlob_def)
qed


section \<open>Lines of a command's output\<close>

text \<open>
  A command prints its lines each followed by a line feed.  When the lines are not
  empty, the first does not begin and the last does not end with white space, trimming
  the output removes the final line feed only and the non-empty lines of the trimmed
  output are the printed lines.
\<close>

lemma concat_lines:
  "names \<noteq> [] \<Longrightarrow> concat (map (\<lambda>n. n @ [c]) names) = join_with [c] names @ [c]"
proof (induction names)
  case Nil
  then show ?case by simp
next
  case (Cons n ns)
  then show ?case by (cases ns) simp_all
qed

lemma join_with_hd:
  "names \<noteq> [] \<Longrightarrow> hd names \<noteq> [] \<Longrightarrow>
   join_with [c] names \<noteq> [] \<and> hd (join_with [c] names) = hd (hd names)"
proof (cases names)
  case Nil
  assume "names \<noteq> []"
  with Nil show ?thesis by simp
next
  case (Cons n ns)
  assume "hd names \<noteq> []"
  with Cons show ?thesis by (cases ns) auto
qed

lemma join_with_not_Nil:
  "names \<noteq> [] \<Longrightarrow> last names \<noteq> [] \<Longrightarrow> join_with [c] names \<noteq> []"
proof (cases names)
  case Nil
  assume "names \<noteq> []"
  with Nil show ?thesis by simp
next
  case (Cons n ns)
  assume "last names \<noteq> []"
  with Cons show ?thesis by (cases ns) auto
qed

lemma join_with_last:
  "names \<noteq> [] \<Longrightarrow> last names \<noteq> [] \<Longrightarrow> last (join_with [c] names) = last (last names)"
proof (induction names)
  case Nil
  then show ?case by simp
next
  case (Cons n ns)
  show ?case
  proof (cases ns)
    case Nil
    then show ?thesis by simp
  next
    case (Cons m ms)
    with Cons.prems have l: "last ns \<noteq> []" and ne: "ns \<noteq> []" by simp_all
    from Cons.IH[OF ne l] have "last (join_with [c] ns) = last (last ns)" .
    moreover from join_with_not_Nil[OF ne l] have "join_with [c] ns \<noteq> []" .
    ultimately show ?thesis using Cons by simp
  qed
qed

lemma trim_line_feed:
  assumes "s \<noteq> []" and "\<not> is_space (hd s)" and "\<not> is_space (last s)"
  shows "trim (s @ [CHR 0x0A]) = s"
proof -
  from assms(1) obtain x xs where s: "s = x # xs" by (cases s) auto
  with assms(2) have d1: "dropWhile is_space (s @ [CHR 0x0A]) = s @ [CHR 0x0A]" by simp
  from assms(1) have "rev s \<noteq> []" by simp
  then obtain y ys where r: "rev s = y # ys" by (cases "rev s") auto
  from assms(1) have "hd (rev s) = last s" by (simp add: hd_rev)
  with r assms(3) have "\<not> is_space y" by simp
  with r have d2: "dropWhile is_space (rev (s @ [CHR 0x0A])) = rev s"
    by (simp add: is_space_def)
  show ?thesis
    unfolding trim_def d1 d2 by simp
qed

lemma nonempty_lines_listing:
  assumes "\<forall>n\<in>set names. n \<noteq> [] \<and> CHR 0x0A \<notin> set n"
    and "names \<noteq> [] \<longrightarrow> \<not> is_space (hd (hd names)) \<and> \<not> is_space (last (last names))"
  shows "nonempty_lines (concat (map (\<lambda>n. n @ [CHR 0x0A]) names)) = names"
proof (cases "names = []")
  case True
  then show ?thesis by (simp add: nonempty_lines_def trim_def)
next
  case False
  let ?j = "join_with [CHR 0x0A] names"
  from False assms(1) have hdne: "hd names \<noteq> []" and lastne: "last names \<noteq> []"
    by (auto simp: hd_in_set)
  from join_with_hd[OF False hdne] have jne: "?j \<noteq> []" and jhd: "hd ?j = hd (hd names)"
    by auto
  from join_with_last[OF False lastne] have jlast: "last ?j = last (last names)" .
  have "trim (?j @ [CHR 0x0A]) = ?j"
    using jne jhd jlast assms(2) False by (intro trim_line_feed) auto
  moreover have "split_on CHR 0x0A ?j = names"
    using False assms(1) by (intro split_on_join) auto
  moreover have "filter (\<lambda>line. line \<noteq> []) names = names"
    using assms(1) by (induction names) auto
  ultimately show ?thesis
    using False by (simp add: nonempty_lines_def concat_lines)
qed


section \<open>Parsing the name-status listing\<close>









section \<open>The previous path of a changed file\<close>

lemma parseLine_shape:
  "parseLine line = []
   \<or> (\<exists>new old. parseLine line = [\<lparr> path = new, changeType = renamed, previousPath = Some old \<rparr>])
   \<or> (\<exists>p t. t \<noteq> renamed \<and> parseLine line = [\<lparr> path = p, changeType = t, previousPath = None \<rparr>])"
  by (simp add: parseLine_def split: list.split)

lemma parseLine_previousPath:
  assumes "f \<in> set (parseLine line)"
  shows "(previousPath f \<noteq> None) = (changeType f = renamed)"
proof -
  consider "parseLine line = []"
    | new old where "parseLine line = [\<lparr> path = new, changeType = renamed, previousPath = Some old \<rparr>]"
    | p t where "t \<noteq> renamed" "parseLine line = [\<lparr> path = p, changeType = t, previousPath = None \<rparr>]"
    using parseLine_shape[of line] by blast
  then show ?thesis
  proof cases
    case 1
    with assms show ?thesis by simp
  next
    case 2
    with assms show ?thesis by simp
  next
    case 3
    with assms show ?thesis by simp
  qed
qed

lemma parseGitDiffNameStatus_previousPath:
  "f \<in> set (parseGitDiffNameStatus output) \<Longrightarrow> (previousPath f \<noteq> None) = (changeType f = renamed)"
  by (auto simp: parseGitDiffNameStatus_def dest: parseLine_previousPath)

lemma trackedAsAdded_previousPath:
  "f \<in> set (trackedAsAdded output) \<Longrightarrow> (previousPath f \<noteq> None) = (changeType f = renamed)"
  by (auto simp: trackedAsAdded_def)

lemma getChangedFilesFromGit_cases:
  assumes "getChangedFilesFromGit exec ev w = (Inr fs, w')"
  shows "(\<exists>out. fs = parseGitDiffNameStatus out) \<or> (\<exists>out. fs = trackedAsAdded out)"
  using assms
  by (auto simp: getChangedFilesFromGit_def Let_def split: prod.splits sum.splits)

lemma getChangedFilesFromGit_previousPath:
  assumes "getChangedFilesFromGit exec ev w = (Inr fs, w')" and "f \<in> set fs"
  shows "(previousPath f \<noteq> None) = (changeType f = renamed)"
proof -
  from assms(1) consider out where "fs = parseGitDiffNameStatus out" | out where "fs = trackedAsAdded out"
    using getChangedFilesFromGit_cases[of exec ev w fs w'] by blast
  then show ?thesis
  proof cases
    case 1
    with assms(2) show ?thesis using parseGitDiffNameStatus_previousPath[of f out] by blast
  next
    case 2
    with assms(2) show ?thesis using trackedAsAdded_previousPath[of f out] by blast
  qed
qed

lemma detectChangedFiles_subset:
  assumes "detectChangedFiles glob exec ev opts w = (Inr fs, w')"
  shows "\<exists>changed. getChangedFilesFromGit exec ev w = (Inr changed, w') \<and> set fs \<subseteq> set changed"
proof (cases "getChangedFilesFromGit exec ev w")
  case (Pair r w1)
  show ?thesis
  proof (cases r)
    case (Inl e)
    with Pair assms show ?thesis by (simp add: detectChangedFiles_def)
  next
    case changed: (Inr changed)
    show ?thesis
    proof (cases "filterFilesByPatterns glob changed (patterns opts) (excludePatterns opts)
                    (caseSensitive opts)")
      case (Inl e)
      with Pair changed assms show ?thesis by (simp add: detectChangedFiles_def)
    next
      case (Inr matched)
      then have "set matched \<subseteq> set changed" by (rule filterFilesByPatterns_subset)
      with Pair changed Inr assms show ?thesis
        by (auto simp: detectChangedFiles_def)
    qed
  qed
qed

text \<open>
  Claim C9.  Every \<open>ChangedFile\<close> produced by change detection has a
  \<open>previousPath\<close> exactly when its change type is \<open>renamed\<close>: the entries
  parsed from a name-status listing, the entries of the all-tracked-files fallback,
  whatever \<open>getChangedFilesFromGit\<close> returns, and whatever is left after filtering.
\<close>

theorem previousPath_iff_renamed:
  "(\<forall>f\<in>set (parseGitDiffNameStatus out). (previousPath f \<noteq> None) = (changeType f = renamed))
   \<and> (\<forall>f\<in>set (trackedAsAdded out). (previousPath f \<noteq> None) = (changeType f = renamed))
   \<and> (\<forall>fs w'. getChangedFilesFromGit exec ev w = (Inr fs, w') \<longrightarrow>
         (\<forall>f\<in>set fs. (previousPath f \<noteq> None) = (changeType f = renamed)))
   \<and> (\<forall>fs w'. detectChangedFiles glob exec ev opts w = (Inr fs, w') \<longrightarrow>
         (\<forall>f\<in>set fs. (previousPath f \<noteq> None) = (changeType f = renamed)))"
proof (intro conjI allI impI ballI)
  fix f assume "f \<in> set (parseGitDiffNameStatus out)"
  then show "(previousPath f \<noteq> None) = (changeType f = renamed)"
    by (rule parseGitDiffNameStatus_previousPath)
next
  fix f assume "f \<in> set (trackedAsAdded out)"
  then show "(previousPath f \<noteq> None) = (changeType f = renamed)"
    by (rule trackedAsAdded_previousPath)
next
  fix fs w' f
  assume "getChangedFilesFromGit exec ev w = (Inr fs, w')" and "f \<in> set fs"
  then show "(previousPath f \<noteq> None) = (changeType f = renamed)"
    by (rule getChangedFilesFromGit_previousPath)
next
  fix fs w' f
  assume run: "detectChangedFiles glob exec ev opts w = (Inr fs, w')" and f: "f \<in> set fs"
  from detectChangedFiles_subset[OF run] obtain changed
    where c: "getChangedFilesFromGit exec ev w = (Inr changed, w')" and sub: "set fs \<subseteq> set changed"
    by blast
  from sub f have "f \<in> set changed" by blast
  with c show "(previousPath f \<noteq> None) = (changeType f = renamed)"
    by (rule getChangedFilesFromGit_previousPath)
qed


theorem previousPath_iff_renamed_witness:
  "\<lparr> path = ''docs/d.md'', changeType = renamed, previousPath = Some ''docs/old.md'' \<rparr>
      \<in> set (parseGitDiffNameStatus pushOutput)
   \<and> \<lparr> path = ''docs/a.md'', changeType = modified, previousPath = None \<rparr>
      \<in> set (parseGitDiffNameStatus pushOutput)
   \<and> getChangedFilesFromGit initialCommitWorld pushEnv ()
      = (Inr [\<lparr> path = ''README.md'', changeType = added, previousPath = None \<rparr>,
              \<lparr> path = ''docs/a.md'', changeType = added, previousPath = None \<rparr>], ())
   \<and> (previousPath \<lparr> path = ''docs/d.md'', changeType = renamed, previousPath = Some ''docs/old.md'' \<rparr> \<noteq> None)
      = (changeType \<lparr> path = ''docs/d.md'', changeType = renamed, previousPath = Some ''docs/old.md'' \<rparr> = renamed)
   \<and> (previousPath \<lparr> path = ''README.md'', changeType = added, previousPath = None \<rparr> \<noteq> None)
      = (changeType \<lparr> path = ''README.md'', changeType = added, previousPath = None \<rparr> = renamed)"
proof -
  have parsed: "parseGitDiffNameStatus pushOutput
     = [\<lparr> path = ''docs/a.md'', changeType = modified, previousPath = None \<rparr>,
        \<lparr> path = ''docs/b.md'', changeType = added, previousPath = None \<rparr>,
        \<lparr> path = ''docs/c.md'', changeType = deleted, previousPath = None \<rparr>,
        \<lparr> path = ''docs/d.md'', changeType = renamed, previousPath = Some ''docs/old.md'' \<rparr>]"
    by code_simp
  have listed: "getChangedFilesFromGit initialCommitWorld pushEnv ()
      = (Inr [\<lparr> path = ''README.md'', changeType = added, previousPath = None \<rparr>,
              \<lparr> path = ''docs/a.md'', changeType = added, previousPath = None \<rparr>], ())"
    by code_simp
  show ?thesis
    using previousPath_iff_renamed [where out = pushOutput and exec = initialCommitWorld
            and ev = pushEnv and w = "()" and glob = literalGlob and opts = pushOptions]
          parsed listed
    by simp
qed


section \<open>The fallback to all tracked files\<close>

text \<open>
  Claim C5, as amended.  When the comparison command is rejected and the listing
  \<open>git ls-files\<close> answers, printing the tracked files one per line (the first name
  does not begin and the last does not end with white space),
  \<open>getChangedFilesFromGit\<close> returns normally, with every tracked file, in order,
  as \<open>added\<close> and without \<open>previousPath\<close>.
\<close>

theorem getChangedFilesFromGit_fallback:
  assumes "comparisonCommand exec ev w = (cmd, w1)"
    and "exec w1 cmd = (Inl err, w2)"
    and "exec w2 ''git ls-files'' = (Inr (concat (map (\<lambda>n. n @ [CHR 0x0A]) names)), w3)"
    and "\<forall>n\<in>set names. n \<noteq> [] \<and> CHR 0x0A \<notin> set n"
    and "names \<noteq> [] \<longrightarrow> \<not> is_space (hd (hd names)) \<and> \<not> is_space (last (last names))"
  shows "getChangedFilesFromGit exec ev w
           = (Inr (map (\<lambda>p. \<lparr> path = p, changeType = added, previousPath = None \<rparr>) names), w3)"
proof -
  have "nonempty_lines (concat (map (\<lambda>n. n @ [CHR 0x0A]) names)) = names"
    using assms(4,5) by (rule nonempty_lines_listing)
  with assms(1,2,3) show ?thesis
    by (simp add: getChangedFilesFromGit_def trackedAsAdded_def)
qed

theorem getChangedFilesFromGit_fallback_witness:
  "comparisonCommand initialCommitWorld pushEnv () = (''git diff --name-status HEAD~1 HEAD'', ())
   \<and> initialCommitWorld () ''git diff --name-status HEAD~1 HEAD'' = (Inl ''Command failed'', ())
   \<and> initialCommitWorld () ''git ls-files''
       = (Inr (concat (map (\<lambda>n. n @ [CHR 0x0A]) [''README.md'', ''docs/a.md''])), ())
   \<and> getChangedFilesFromGit initialCommitWorld pushEnv ()
      = (Inr [\<lparr> path = ''README.md'', changeType = added, previousPath = None \<rparr>,
              \<lparr> path = ''docs/a.md'', changeType = added, previousPath = None \<rparr>], ())"
proof -
  have c: "comparisonCommand initialCommitWorld pushEnv () = (''git diff --name-status HEAD~1 HEAD'', ())"
    by (simp add: comparisonCommand_def pushEnv_def)
  have d: "initialCommitWorld () ''git diff --name-status HEAD~1 HEAD'' = (Inl ''Command failed'', ())"
    by (simp add: initialCommitWorld_def scriptedGit_def)
  have l: "initialCommitWorld () ''git ls-files''
             = (Inr (concat (map (\<lambda>n. n @ [CHR 0x0A]) [''README.md'', ''docs/a.md''])), ())"
    by (simp add: initialCommitWorld_def scriptedGit_def newline_def)
  have wf: "\<forall>n\<in>set [''README.md'', ''docs/a.md'']. n \<noteq> [] \<and> CHR 0x0A \<notin> set n"
    by simp
  have sp: "[''README.md'', ''docs/a.md''] \<noteq> [] \<longrightarrow>
              \<not> is_space (hd (hd [''README.md'', ''docs/a.md'']))
              \<and> \<not> is_space (last (last [''README.md'', ''docs/a.md'']))"
    by (simp add: is_space_def)
  show ?thesis
    using getChangedFilesFromGit_fallback [OF c d l wf sp] c d l
    by simp
qed

lemma getChangedFilesFromGit_listing_fails:
  assumes "comparisonCommand exec ev w = (cmd, w1)"
    and "exec w1 cmd = (Inl err, w2)"
    and "exec w2 ''git ls-files'' = (Inl err2, w3)"
  shows "getChangedFilesFromGit exec ev w = (Inl err2, w3)"
  using assms by (simp add: getChangedFilesFromGit_def)

text \<open>
  The claim as stated promises that no error is raised whenever the comparison command
  fails, and that every tracked file is returned.  The listing is not guarded: where it
  is rejected as well (no repository was checked out), the rejection is the result of
  the function.  And the listing is trimmed as a whole before it is split: a tracked
  file \<open> a.md\<close>, with a leading space, that opens the listing comes back as
  \<open>a.md\<close>.
\<close>

theorem getChangedFilesFromGit_fallback_counterexample:
  "comparisonCommand noRepository pushEnv () = (''git diff --name-status HEAD~1 HEAD'', ())
   \<and> noRepository () ''git diff --name-status HEAD~1 HEAD'' = (Inl ''fatal: not a git repository'', ())
   \<and> getChangedFilesFromGit noRepository pushEnv () = (Inl ''fatal: not a git repository'', ())
   \<and> comparisonCommand spacedListingWorld pushEnv () = (''git diff --name-status HEAD~1 HEAD'', ())
   \<and> spacedListingWorld () ''git diff --name-status HEAD~1 HEAD'' = (Inl ''Command failed'', ())
   \<and> spacedListingWorld () ''git ls-files'' = (Inr ('' a.md'' @ newline), ())
   \<and> getChangedFilesFromGit spacedListingWorld pushEnv ()
       = (Inr [\<lparr> path = ''a.md'', changeType = added, previousPath = None \<rparr>], ())"
  by code_simp

section \<open>Generating the diffs of a batch\<close>

lemma generateDiffForFile_file: "file' (fst (generateDiffForFile exec ev f options w)) = f"
  by (simp add: generateDiffForFile_def unableToDiff_def processDiffOutput_def Let_def
           split: prod.splits sum.splits)

lemma generateDiffs_files: "map file' (fst (generateDiffs exec ev files options w)) = files"
proof (induction files arbitrary: w)
  case Nil
  then show ?case by simp
next
  case (Cons f fs)
  obtain d w1 where s: "generateDiffForFile exec ev f options w = (d, w1)"
    by (cases "generateDiffForFile exec ev f options w")
  obtain ds w2 where r: "generateDiffs exec ev fs options w1 = (ds, w2)"
    by (cases "generateDiffs exec ev fs options w1")
  have "file' d = f"
    using generateDiffForFile_file[of exec ev f options w] s by simp
  moreover have "map file' ds = fs"
    using Cons.IH[of w1] r by simp
  ultimately show ?case
    using s r by simp
qed

lemma generateDiffs_append:
  "generateDiffs exec ev (xs @ ys) options w =
     (fst (generateDiffs exec ev xs options w)
        @ fst (generateDiffs exec ev ys options (snd (generateDiffs exec ev xs options w))),
      snd (generateDiffs exec ev ys options (snd (generateDiffs exec ev xs options w))))"
proof (induction xs arbitrary: w)
  case Nil
  then show ?case by simp
next
  case (Cons x xs)
  obtain d w1 where s: "generateDiffForFile exec ev x options w = (d, w1)"
    by (cases "generateDiffForFile exec ev x options w")
  show ?case
    using Cons.IH[of w1] s by (simp add: split_beta)
qed

text \<open>
  Claim C10.  For every list of changed files, every options and every world,
  \<open>generateDiffs\<close> returns a list of the same length whose \<open>i\<close>-th entry
  carries the \<open>i\<close>-th input file; nothing is assumed about which diff commands
  fail.
\<close>

theorem generateDiffs_aligned:
  "length (fst (generateDiffs exec ev files options w)) = length files
   \<and> (\<forall>i<length files. file' (fst (generateDiffs exec ev files options w) ! i) = files ! i)"
proof -
  have m: "map file' (fst (generateDiffs exec ev files options w)) = files"
    by (rule generateDiffs_files)
  then have len: "length (fst (generateDiffs exec ev files options w)) = length files"
    by (metis length_map)
  moreover have "\<forall>i<length files. file' (fst (generateDiffs exec ev files options w) ! i) = files ! i"
  proof (intro allI impI)
    fix i assume "i < length files"
    with len have "i < length (fst (generateDiffs exec ev files options w))" by simp
    then have "map file' (fst (generateDiffs exec ev files options w)) ! i
                 = file' (fst (generateDiffs exec ev files options w) ! i)"
      by (rule nth_map)
    with m show "file' (fst (generateDiffs exec ev files options w) ! i) = files ! i" by simp
  qed
  ultimately show ?thesis by blast
qed

lemma oneDiffWorld_batch:
  "generateDiffs oneDiffWorld pushEnv [specFile, otherFile] defaultDiffOptions ()
     = ([\<lparr> file' = specFile, FileDiff.diff = ''Unable to generate diff for this file.'',
            truncated = False, lineCount = 0 \<rparr>,
         \<lparr> file' = otherFile, FileDiff.diff = ''+new file'', truncated = False, lineCount = 1 \<rparr>], ())"
  by code_simp

theorem generateDiffs_aligned_witness:
  "generateDiffs oneDiffWorld pushEnv [specFile, otherFile] defaultDiffOptions ()
     = ([\<lparr> file' = specFile, FileDiff.diff = ''Unable to generate diff for this file.'',
            truncated = False, lineCount = 0 \<rparr>,
         \<lparr> file' = otherFile, FileDiff.diff = ''+new file'', truncated = False, lineCount = 1 \<rparr>], ())
   \<and> length (fst (generateDiffs oneDiffWorld pushEnv [specFile, otherFile] defaultDiffOptions ())) = 2
   \<and> file' (fst (generateDiffs oneDiffWorld pushEnv [specFile, otherFile] defaultDiffOptions ()) ! 0) = specFile
   \<and> file' (fst (generateDiffs oneDiffWorld pushEnv [specFile, otherFile] defaultDiffOptions ()) ! 1) = otherFile"
proof -
  note a = generateDiffs_aligned [of oneDiffWorld pushEnv "[specFile, otherFile]" defaultDiffOptions "()"]
  from a have len: "length (fst (generateDiffs oneDiffWorld pushEnv [specFile, otherFile] defaultDiffOptions ())) = 2"
    by simp
  from a have "file' (fst (generateDiffs oneDiffWorld pushEnv [specFile, otherFile] defaultDiffOptions ()) ! 0)
                 = [specFile, otherFile] ! 0"
    by (elim conjE allE[of _ 0]) simp
  moreover from a have "file' (fst (generateDiffs oneDiffWorld pushEnv [specFile, otherFile] defaultDiffOptions ()) ! 1)
                 = [specFile, otherFile] ! 1"
    by (elim conjE allE[of _ 1]) simp
  ultimately show ?thesis
    using len oneDiffWorld_batch by simp
qed


text \<open>
  Claim C6, as amended.  When the diff command of a file is rejected,
  \<open>generateDiffForFile\<close> returns for that file the placeholder text
  \<open>Unable to generate diff for this file.\<close> with \<open>truncated = false\<close> and
  \<open>lineCount = 0\<close>, and \<open>generateDiffs\<close> carries on: the results of the files
  before it are kept, and every remaining file gets its result, computed from the world
  the failed command left.
\<close>

theorem generateDiffForFile_failure:
  assumes "generateDiffs exec ev before options w0 = (ds, w)"
    and "exec w (diffCommandFor ev f (contextLines options)) = (Inl err, w')"
  shows "generateDiffForFile exec ev f options w
           = (\<lparr> file' = f, FileDiff.diff = ''Unable to generate diff for this file.'',
                truncated = False, lineCount = 0 \<rparr>, w')
       \<and> generateDiffs exec ev (before @ f # rest) options w0
           = (ds @ \<lparr> file' = f, FileDiff.diff = ''Unable to generate diff for this file.'',
                     truncated = False, lineCount = 0 \<rparr>
                 # fst (generateDiffs exec ev rest options w'),
              snd (generateDiffs exec ev rest options w'))
       \<and> length (fst (generateDiffs exec ev rest options w')) = length rest
       \<and> map file' (fst (generateDiffs exec ev rest options w')) = rest"
proof -
  have one: "generateDiffForFile exec ev f options w
           = (\<lparr> file' = f, FileDiff.diff = ''Unable to generate diff for this file.'',
                truncated = False, lineCount = 0 \<rparr>, w')"
    using assms(2) by (simp add: generateDiffForFile_def unableToDiff_def)
  have m: "map file' (fst (generateDiffs exec ev rest options w')) = rest"
    by (rule generateDiffs_files)
  then have "length (fst (generateDiffs exec ev rest options w')) = length rest"
    by (metis length_map)
  moreover have "generateDiffs exec ev (before @ f # rest) options w0
           = (ds @ \<lparr> file' = f, FileDiff.diff = ''Unable to generate diff for this file.'',
                     truncated = False, lineCount = 0 \<rparr>
                 # fst (generateDiffs exec ev rest options w'),
              snd (generateDiffs exec ev rest options w'))"
    using assms(1) one by (simp add: generateDiffs_append split_beta)
  ultimately show ?thesis
    using one m by blast
qed

text \<open>
  The claim as stated gives the placeholder as \<open>unable to generate diff\<close>; the text
  the code returns is another one.
\<close>

theorem generateDiffForFile_failure_counterexample:
  "noRepository () (diffCommandFor pushEnv specFile (contextLines defaultDiffOptions))
     = (Inl ''fatal: not a git repository'', ())
   \<and> FileDiff.diff (fst (generateDiffForFile noRepository pushEnv specFile defaultDiffOptions ()))
     = ''Unable to generate diff for this file.''
   \<and> FileDiff.diff (fst (generateDiffForFile noRepository pushEnv specFile defaultDiffOptions ()))
     \<noteq> ''unable to generate diff''"
  by (simp add: generateDiffForFile_def unableToDiff_def noRepository_def)


lemma oneDiffWorld_rest:
  "generateDiffs oneDiffWorld pushEnv [otherFile] defaultDiffOptions ()
     = ([\<lparr> file' = otherFile, FileDiff.diff = ''+new file'', truncated = False, lineCount = 1 \<rparr>], ())"
  by code_simp

lemma oneDiffWorld_fails:
  "oneDiffWorld () (diffCommandFor pushEnv specFile (contextLines defaultDiffOptions))
     = (Inl ''Command failed'', ())"
  by code_simp

theorem generateDiffForFile_failure_witness:
  "generateDiffs oneDiffWorld pushEnv [] defaultDiffOptions () = ([], ())
   \<and> oneDiffWorld () (diffCommandFor pushEnv specFile (contextLines defaultDiffOptions))
       = (Inl ''Command failed'', ())
   \<and> generateDiffForFile oneDiffWorld pushEnv specFile defaultDiffOptions ()
       = (\<lparr> file' = specFile, FileDiff.diff = ''Unable to generate diff for this file.'',
            truncated = False, lineCount = 0 \<rparr>, ())
   \<and> generateDiffs oneDiffWorld pushEnv ([] @ specFile # [otherFile]) defaultDiffOptions ()
       = ([\<lparr> file' = specFile, FileDiff.diff = ''Unable to generate diff for this file.'',
              truncated = False, lineCount = 0 \<rparr>,
           \<lparr> file' = otherFile, FileDiff.diff = ''+new file'', truncated = False, lineCount = 1 \<rparr>], ())"
proof -
  have nothing: "generateDiffs oneDiffWorld pushEnv [] defaultDiffOptions () = ([], ())"
    by simp
  show ?thesis
    using generateDiffForFile_failure [where exec = oneDiffWorld and ev = pushEnv and before = "[]"
            and options = defaultDiffOptions and ?w0.0 = "()" and ds = "[]" and w = "()"
            and f = specFile and err = "''Command failed''" and w' = "()" and rest = "[otherFile]"]
          nothing oneDiffWorld_fails oneDiffWorld_rest
    by simp
qed


section \<open>Rendering twice\<close>

lemma buildTemplateContext_dated:
  assumes "truthy (commit_date_opt context)"
  shows "buildTemplateContext ev now1 fileDiff context options
           = buildTemplateContext ev now2 fileDiff context options"
proof -
  from assms obtain d where "commit_date_opt context = Some d" and "d \<noteq> []"
    by (auto simp: truthy_def split: option.splits)
  then have "js_or (commit_date_opt context) now1 = js_or (commit_date_opt context) now2"
    by (simp add: js_or_def)
  then show ?thesis
    by (simp add: buildTemplateContext_def)
qed

text \<open>
  Claim C7, as amended.  Two calls of \<open>renderIssue\<close> with the same file diff,
  options and context, in the same environment, working directory and file system, and
  with any template engine, return the same result whatever the clock reads at each of
  them, if the context carries a non-empty commit date; they also return the same result
  if the clock reads the same at both calls.
\<close>

theorem renderIssue_repeatable:
  assumes "truthy (commit_date_opt context) \<or> now1 = now2"
  shows "renderIssue compile ev cwd fs now1 fileDiff options context
           = renderIssue compile ev cwd fs now2 fileDiff options context"
proof -
  have "buildTemplateContext ev now1 fileDiff context options
           = buildTemplateContext ev now2 fileDiff context options"
    using assms buildTemplateContext_dated by blast
  then show ?thesis
    by (simp add: renderIssue_def)
qed

lemma dated_render:
  "renderIssue handlebarsFragment pushEnv runnerCwd noFiles ''2025-12-01T10:00:00.000Z''
       specDiff dateOptions datedContext
     = (Inr \<lparr> title = ''Specification Change: api-specification.md'',
               body = ''Date: 2025-12-01'' \<rparr>, [])"
  by code_simp

theorem renderIssue_repeatable_witness:
  "truthy (commit_date_opt datedContext)
   \<and> renderIssue handlebarsFragment pushEnv runnerCwd noFiles ''2025-12-01T10:00:00.000Z''
       specDiff dateOptions datedContext
     = (Inr \<lparr> title = ''Specification Change: api-specification.md'',
               body = ''Date: 2025-12-01'' \<rparr>, [])
   \<and> renderIssue handlebarsFragment pushEnv runnerCwd noFiles ''2025-12-01T10:00:00.001Z''
       specDiff dateOptions datedContext
     = (Inr \<lparr> title = ''Specification Change: api-specification.md'',
               body = ''Date: 2025-12-01'' \<rparr>, [])"
proof -
  have d: "truthy (commit_date_opt datedContext)"
    by (simp add: datedContext_def truthy_def)
  then have "truthy (commit_date_opt datedContext)
       \<or> ''2025-12-01T10:00:00.001Z'' = ''2025-12-01T10:00:00.000Z''" ..
  from renderIssue_repeatable [OF this, of handlebarsFragment pushEnv runnerCwd noFiles specDiff dateOptions]
  show ?thesis
    using d dated_render by simp
qed

text \<open>
  The claim as stated covers every partial context.  A context without a commit date
  takes the current timestamp, so a template that shows \<open>commit_date\<close> renders
  differently a millisecond later.
\<close>

theorem renderIssue_repeatable_counterexample:
  "commit_date_opt emptyContext = None
   \<and> renderIssue handlebarsFragment pushEnv runnerCwd noFiles ''2025-12-01T10:00:00.000Z''
       specDiff dateOptions emptyContext
     = (Inr \<lparr> title = ''Specification Change: api-specification.md'',
               body = ''Date: 2025-12-01T10:00:00.000Z'' \<rparr>, [])
   \<and> renderIssue handlebarsFragment pushEnv runnerCwd noFiles ''2025-12-01T10:00:00.001Z''
       specDiff dateOptions emptyContext
     = (Inr \<lparr> title = ''Specification Change: api-specification.md'',
               body = ''Date: 2025-12-01T10:00:00.001Z'' \<rparr>, [])
   \<and> renderIssue handlebarsFragment pushEnv runnerCwd noFiles ''2025-12-01T10:00:00.000Z''
       specDiff dateOptions emptyContext
     \<noteq> renderIssue handlebarsFragment pushEnv runnerCwd noFiles ''2025-12-01T10:00:00.001Z''
       specDiff dateOptions emptyContext"
proof -
  have a: "renderIssue handlebarsFragment pushEnv runnerCwd noFiles ''2025-12-01T10:00:00.000Z''
       specDiff dateOptions emptyContext
     = (Inr \<lparr> title = ''Specification Change: api-specification.md'',
               body = ''Date: 2025-12-01T10:00:00.000Z'' \<rparr>, [])"
    by code_simp
  have b: "renderIssue handlebarsFragment pushEnv runnerCwd noFiles ''2025-12-01T10:00:00.001Z''
       specDiff dateOptions emptyContext
     = (Inr \<lparr> title = ''Specification Change: api-specification.md'',
               body = ''Date: 2025-12-01T10:00:00.001Z'' \<rparr>, [])"
    by code_simp
  have c: "commit_date_opt emptyContext = None"
    by (simp add: emptyContext_def)
  show ?thesis
    unfolding a b using c by simp
qed


section \<open>The links of the template context\<close>

text \<open>
  Claim C8, as amended.  In every built context, \<open>file_link\<close> and
  \<open>commit_link\<close> are empty exactly when their inclusion flag is false, and
  \<open>pr_link\<close> is empty exactly when its flag is false or the context has no PR
  number.  Otherwise the links are \<open>{server}/{owner/repo}/blob/{sha}/{path}\<close>,
  \<open>{server}/{owner/repo}/commit/{sha}\<close> and
  \<open>{server}/{owner/repo}/pull/{number}\<close>, where \<open>sha\<close> is the commit SHA of the
  context, or else of the environment, or else empty.
\<close>

theorem buildTemplateContext_links:
  "(file_link (buildTemplateContext ev now fileDiff context options) = []) = (\<not> includeFileLink options)
   \<and> (commit_link (buildTemplateContext ev now fileDiff context options) = []) = (\<not> includeCommitLink options)
   \<and> (pr_link (buildTemplateContext ev now fileDiff context options) = [])
        = (\<not> includePrLink options \<or> \<not> truthy (pr_number_opt context))
   \<and> commit_sha (buildTemplateContext ev now fileDiff context options)
        = js_or (commit_sha_opt context) (js_or (ev ''GITHUB_SHA'') [])
   \<and> pr_number (buildTemplateContext ev now fileDiff context options) = js_or (pr_number_opt context) []
   \<and> (includeFileLink options \<longrightarrow>
        file_link (buildTemplateContext ev now fileDiff context options)
          = js_or (ev ''GITHUB_SERVER_URL'') ''https://github.com'' @ ''/'' @ js_or (ev ''GITHUB_REPOSITORY'') []
            @ ''/blob/'' @ commit_sha (buildTemplateContext ev now fileDiff context options)
            @ ''/'' @ path (file' fileDiff))
   \<and> (includeCommitLink options \<longrightarrow>
        commit_link (buildTemplateContext ev now fileDiff context options)
          = js_or (ev ''GITHUB_SERVER_URL'') ''https://github.com'' @ ''/'' @ js_or (ev ''GITHUB_REPOSITORY'') []
            @ ''/commit/'' @ commit_sha (buildTemplateContext ev now fileDiff context options))
   \<and> (includePrLink options \<and> truthy (pr_number_opt context) \<longrightarrow>
        pr_link (buildTemplateContext ev now fileDiff context options)
          = js_or (ev ''GITHUB_SERVER_URL'') ''https://github.com'' @ ''/'' @ js_or (ev ''GITHUB_REPOSITORY'') []
            @ ''/pull/'' @ pr_number (buildTemplateContext ev now fileDiff context options))"
proof -
  have t: "truthy (pr_number_opt context) = (js_or (pr_number_opt context) [] \<noteq> [])"
    by (simp add: truthy_def js_or_def split: option.splits)
  show ?thesis
    unfolding t by (simp add: buildTemplateContext_def getRepoUrl_def Let_def)
qed


lemma actionEnv_links:
  "file_link (buildTemplateContext actionEnv ''2025-12-01T10:00:00.000Z'' specDiff prContext dateOptions)
     = ''https://github.com/test-org/test-repo/blob/abc1234567890/docs/api-specification.md''
   \<and> commit_link (buildTemplateContext actionEnv ''2025-12-01T10:00:00.000Z'' specDiff prContext dateOptions)
     = ''https://github.com/test-org/test-repo/commit/abc1234567890''
   \<and> pr_link (buildTemplateContext actionEnv ''2025-12-01T10:00:00.000Z'' specDiff prContext dateOptions)
     = ''https://github.com/test-org/test-repo/pull/42''"
  by code_simp

theorem buildTemplateContext_links_witness:
  "includeFileLink dateOptions \<and> includeCommitLink dateOptions \<and> includePrLink dateOptions
   \<and> truthy (pr_number_opt prContext)
   \<and> file_link (buildTemplateContext actionEnv ''2025-12-01T10:00:00.000Z'' specDiff prContext dateOptions)
     = ''https://github.com/test-org/test-repo/blob/abc1234567890/docs/api-specification.md''
   \<and> commit_link (buildTemplateContext actionEnv ''2025-12-01T10:00:00.000Z'' specDiff prContext dateOptions)
     = ''https://github.com/test-org/test-repo/commit/abc1234567890''
   \<and> pr_link (buildTemplateContext actionEnv ''2025-12-01T10:00:00.000Z'' specDiff prContext dateOptions)
     = ''https://github.com/test-org/test-repo/pull/42''
   \<and> pr_link (buildTemplateContext actionEnv ''2025-12-01T10:00:00.000Z'' specDiff emptyContext dateOptions) = []
   \<and> file_link (buildTemplateContext actionEnv ''2025-12-01T10:00:00.000Z'' specDiff prContext
                   (dateOptions \<lparr> includeFileLink := False \<rparr>)) = []"
proof -
  have flags: "includeFileLink dateOptions \<and> includeCommitLink dateOptions \<and> includePrLink dateOptions"
    by (simp add: dateOptions_def)
  have pr: "truthy (pr_number_opt prContext)"
    by (simp add: prContext_def truthy_def)
  have nopr: "\<not> truthy (pr_number_opt emptyContext)"
    by (simp add: emptyContext_def truthy_def)
  have off: "\<not> includeFileLink (dateOptions \<lparr> includeFileLink := False \<rparr>)"
    by simp
  have a: "pr_link (buildTemplateContext actionEnv ''2025-12-01T10:00:00.000Z'' specDiff emptyContext dateOptions) = []"
    using buildTemplateContext_links [of actionEnv "''2025-12-01T10:00:00.000Z''" specDiff emptyContext dateOptions]
          nopr by blast
  have b: "file_link (buildTemplateContext actionEnv ''2025-12-01T10:00:00.000Z'' specDiff prContext
                   (dateOptions \<lparr> includeFileLink := False \<rparr>)) = []"
    using buildTemplateContext_links [of actionEnv "''2025-12-01T10:00:00.000Z''" specDiff prContext
            "dateOptions \<lparr> includeFileLink := False \<rparr>"] off by blast
  show ?thesis
    using flags pr a b actionEnv_links by blast
qed

text \<open>
  The claim as stated makes \<open>file_link\<close> and \<open>commit_link\<close> empty when the
  commit SHA is absent.  Only the PR link looks at its identifying data: without a SHA
  the two other links are built around an empty ref.
\<close>

theorem buildTemplateContext_links_counterexample:
  "commit_sha_opt emptyContext = None \<and> pushEnv ''GITHUB_SHA'' = None
   \<and> commit_sha (buildTemplateContext pushEnv ''2025-12-01T10:00:00.000Z'' specDiff emptyContext dateOptions) = []
   \<and> file_link (buildTemplateContext pushEnv ''2025-12-01T10:00:00.000Z'' specDiff emptyContext dateOptions)
       = ''https://github.com/test-org/test-repo/blob//docs/api-specification.md''
   \<and> commit_link (buildTemplateContext pushEnv ''2025-12-01T10:00:00.000Z'' specDiff emptyContext dateOptions)
       = ''https://github.com/test-org/test-repo/commit/''
   \<and> file_link (buildTemplateContext pushEnv ''2025-12-01T10:00:00.000Z'' specDiff emptyContext dateOptions) \<noteq> []
   \<and> commit_link (buildTemplateContext pushEnv ''2025-12-01T10:00:00.000Z'' specDiff emptyContext dateOptions) \<noteq> []"
proof -
  have a: "commit_sha (buildTemplateContext pushEnv ''2025-12-01T10:00:00.000Z'' specDiff emptyContext dateOptions) = []"
    by code_simp
  have b: "file_link (buildTemplateContext pushEnv ''2025-12-01T10:00:00.000Z'' specDiff emptyContext dateOptions)
       = ''https://github.com/test-org/test-repo/blob//docs/api-specification.md''"
    by code_simp
  have c: "commit_link (buildTemplateContext pushEnv ''2025-12-01T10:00:00.000Z'' specDiff emptyContext dateOptions)
       = ''https://github.com/test-org/test-repo/commit/''"
    by code_simp
  have d: "commit_sha_opt emptyContext = None \<and> pushEnv ''GITHUB_SHA'' = None"
    by (simp add: emptyContext_def pushEnv_def)
  show ?thesis
    unfolding a b c using d by simp
qed


section \<open>The template path guard\<close>

text \<open>
  What the guard does establish: a resolved path that does not begin with the root's
  text is rejected with a warning, a missing file falls back to the default template
  with a warning, and every file read begins with the root's text.
\<close>

lemma resolveBodyTemplate_rejected:
  assumes "trim templateInput \<noteq> []"
    and "endsWith templateInput ''.md'' \<or> CHR ''/'' \<in> set templateInput"
    and "\<not> startsWith (path_resolve cwd templateInput) cwd"
  shows "resolveBodyTemplate cwd fs templateInput
           = (DEFAULT_TEMPLATE,
              [Warning (''Template path resolves outside repo root: '' @ path_resolve cwd templateInput
                        @ ''. Using default template.'')])"
proof -
  from assms(1) have "templateInput \<noteq> []" by (auto simp: trim_def)
  with assms show ?thesis by (simp add: resolveBodyTemplate_def Let_def)
qed

lemma resolveBodyTemplate_not_found:
  assumes "trim templateInput \<noteq> []"
    and "endsWith templateInput ''.md'' \<or> CHR ''/'' \<in> set templateInput"
    and "startsWith (path_resolve cwd templateInput) cwd"
    and "fs (path_resolve cwd templateInput) = None"
  shows "resolveBodyTemplate cwd fs templateInput
           = (DEFAULT_TEMPLATE,
              [Warning (''Template file not found: '' @ path_resolve cwd templateInput
                        @ '', using default template'')])"
proof -
  from assms(1) have "templateInput \<noteq> []" by (auto simp: trim_def)
  with assms show ?thesis by (simp add: resolveBodyTemplate_def Let_def)
qed

lemma resolveBodyTemplate_reads_prefixed:
  "ReadFile p \<in> set (snd (resolveBodyTemplate cwd fs templateInput)) \<Longrightarrow> startsWith p cwd"
  by (auto simp: resolveBodyTemplate_def Let_def split: if_splits option.splits fs_entry.splits)

text \<open>
  Claim C4.  The claim is that a template path resolving outside the repository root
  is never read.  The guard compares strings: \<open>templatePath.startsWith(repoRoot)\<close>.
  A sibling directory whose name extends the root's name passes it.  Here the root is
  \<open>/home/runner/work/repo\<close>, the input \<open>../repo-private/notes.md\<close> resolves to
  \<open>/home/runner/work/repo-private/notes.md\<close>, which is not inside the root, and the
  file is read and returned as the body template, with no warning.
\<close>

theorem resolveBodyTemplate_sibling_directory:
  "endsWith ''../repo-private/notes.md'' ''.md''
   \<and> path_resolve runnerCwd ''../repo-private/notes.md'' = ''/home/runner/work/repo-private/notes.md''
   \<and> \<not> insideRoot runnerCwd (path_resolve runnerCwd ''../repo-private/notes.md'')
   \<and> resolveBodyTemplate runnerCwd runnerFiles ''../repo-private/notes.md''
       = (''PRIVATE NOTES'',
          [Debug ''Loading template from file: /home/runner/work/repo-private/notes.md'',
           ReadFile ''/home/runner/work/repo-private/notes.md''])"
  by code_simp


end
